theory Spec2Isabelle
  imports Main "HOL-Library.Char_ord" "HOL-Library.List_Lexorder"
begin

section \<open>Strings\<close>

text \<open>
  Python strings are modelled as \<open>string\<close> (a list of 8-bit characters). \<open>str.lower()\<close>
  maps the ASCII capital letters to their small letters and leaves every other character
  unchanged.
\<close>

definition lower_char :: "char \<Rightarrow> char" where
  "lower_char c =
     (case map_of (zip ''ABCDEFGHIJKLMNOPQRSTUVWXYZ'' ''abcdefghijklmnopqrstuvwxyz'') c of
        Some l \<Rightarrow> l
      | None \<Rightarrow> c)"

definition lower :: "string \<Rightarrow> string" where
  "lower s = map lower_char s"

section \<open>The event tables of a demo\<close>

text \<open>
  \<open>DemoParser.parse_event\<close> either raises, returns something that is not a
  \<open>DataFrame\<close>, or returns a \<open>DataFrame\<close>. A \<open>DataFrame\<close> is its list of column
  names and its rows; a row is a typed record of the columns the program reads. The
  program guards every read of a column with \<open>'c' in df.columns\<close> or reads it
  unguarded, in which case a missing column raises \<open>KeyError\<close>; both are written out
  below, so the value a row carries for a column that is not in \<open>columns\<close> is never used.
\<close>

datatype 'a parsed = Raises | NotFrame | Frame 'a

record 'r frame =
  columns :: "string list"
  rows :: "'r list"

text \<open>\<open>df.empty\<close>: no rows or no columns.\<close>

definition empty_df :: "'r frame \<Rightarrow> bool" where
  "empty_df df \<longleftrightarrow> rows df = [] \<or> columns df = []"

text \<open>\<open>'c' in df.columns\<close>.\<close>

definition has_col :: "'r frame \<Rightarrow> string \<Rightarrow> bool" where
  "has_col df c \<longleftrightarrow> c \<in> set (columns df)"

text \<open>\<open>pd.DataFrame()\<close>.\<close>

definition no_frame :: "'r frame" where
  "no_frame = \<lparr>columns = [], rows = []\<rparr>"

text \<open>Rows of \<open>player_death\<close>: \<open>attacker_name\<close>, \<open>user_name\<close>, \<open>headshot\<close>, \<open>tick\<close>.\<close>

record death_row =
  d_attacker_name :: "string option"
  d_user_name :: "string option"
  d_headshot :: bool
  d_tick :: int

text \<open>Rows of \<open>player_hurt\<close>: \<open>attacker_name\<close>, \<open>weapon\<close>, \<open>dmg_health\<close>.\<close>

record hurt_row =
  h_attacker_name :: "string option"
  h_weapon :: string
  h_dmg_health :: int

text \<open>Rows of \<open>round_end\<close>: \<open>tick\<close>, \<open>round\<close>, \<open>winner\<close>.\<close>

record round_row =
  r_tick :: int
  r_round :: int
  r_winner :: string

text \<open>Rows of \<open>parse_ticks(['name', 'team_name'])\<close>: \<open>tick\<close>, \<open>name\<close>, \<open>team_name\<close>.\<close>

record tick_row =
  t_tick :: int
  t_name :: "string option"
  t_team_name :: "string option"

text \<open>
  What one \<open>DemoStatsParser\<close> reads: the four tables, the header (\<open>None\<close> when
  \<open>parse_header\<close> raises, otherwise the value of its \<open>map_name\<close> key if it has one), the
  stem of the demo's file name and the formatted modification time of the file
  (\<open>None\<close> when \<open>os.path.getmtime\<close> raises).
\<close>

record demo =
  player_death :: "death_row frame parsed"
  player_hurt :: "hurt_row frame parsed"
  round_end :: "round_row frame parsed"
  ticks :: "tick_row frame parsed"
  header :: "string option option"
  stem :: string
  mtime :: "string option"

text \<open>\<open>REQUIRED_PLAYERS\<close>.\<close>

definition REQUIRED_PLAYERS :: "string set" where
  "REQUIRED_PLAYERS = {''nifty'', ''Dybbis'', ''Togmannen'', ''Stutmunn'', ''martinsen''}"

section \<open>Round lookup\<close>

text \<open>
  \<open>get_round_for_tick\<close> (nested in \<open>parse_player_stats\<close>): the loop over
  \<open>round_end_df.iterrows()\<close> returns the round of the first row whose tick is not
  below the given tick; after the loop, \<open>round_end_df.iloc[-1]\<close> raises \<open>IndexError\<close> on
  a frame without rows (\<open>None\<close>).
\<close>

fun scan_rounds :: "round_row list \<Rightarrow> int \<Rightarrow> int option" where
  "scan_rounds [] t = None"
| "scan_rounds (r # rs) t = (if t \<le> r_tick r then Some (r_round r) else scan_rounds rs t)"

definition get_round_for_tick :: "round_row list \<Rightarrow> int \<Rightarrow> int option" where
  "get_round_for_tick rs t =
     (case scan_rounds rs t of
        Some n \<Rightarrow> Some n
      | None \<Rightarrow> (if rs = [] then None else Some (r_round (last rs))))"

section \<open>Player names and the roster check\<close>

text \<open>
  \<open>get_player_names\<close>: the attackers and victims of \<open>player_death\<close>, without \<open>None\<close>,
  the empty string and the string \<open>None\<close>; the empty set when the event cannot be parsed
  or is not a \<open>DataFrame\<close>. The Python value is a set; it is a duplicate-free list here,
  and nothing below depends on its order.
\<close>

definition strings_of :: "string option list \<Rightarrow> string list" where
  "strings_of xs = concat (map (\<lambda>x. case x of None \<Rightarrow> [] | Some n \<Rightarrow> [n]) xs)"

definition get_player_names :: "demo \<Rightarrow> string list" where
  "get_player_names d =
     (case player_death d of
        Frame df \<Rightarrow>
          (let attackers = (if has_col df ''attacker_name'' then map d_attacker_name (rows df) else []);
               victims = (if has_col df ''user_name'' then map d_user_name (rows df) else [])
           in remdups (filter (\<lambda>n. n \<noteq> [] \<and> n \<noteq> ''None'') (strings_of (attackers @ victims))))
      | _ \<Rightarrow> [])"

text \<open>
  \<open>check_required_players\<close>: \<open>missing\<close> is the set the function prints when it is not
  empty; the function returns whether it is empty.
\<close>

definition missing :: "demo \<Rightarrow> string set" where
  "missing d = lower ` REQUIRED_PLAYERS - lower ` set (get_player_names d)"

definition check_required_players :: "demo \<Rightarrow> bool" where
  "check_required_players d \<longleftrightarrow> missing d = {}"

text \<open>\<open>get_match_id\<close>: the stem of the file name without underscores.\<close>

definition get_match_id :: "demo \<Rightarrow> string" where
  "get_match_id d = filter (\<lambda>c. c \<noteq> CHR ''_'') (stem d)"

section \<open>Per-player statistics\<close>

text \<open>The dictionary \<open>parse_player_stats\<close> builds for one player.\<close>

record stats =
  kills_total :: int
  deaths_total :: int
  dmg :: int
  utility_dmg :: int
  headshot_kills_total :: int
  ace_rounds_total :: int
  quad_rounds_total :: int
  triple_rounds_total :: int
  mvps :: int

definition utility_weapons :: "string list" where
  "utility_weapons = [''hegrenade'', ''molotov'', ''incgrenade'', ''inferno'']"

text \<open>\<open>groupby('round').size()\<close>: the distinct keys in ascending order, each with its count.\<close>

definition groupby_size :: "int list \<Rightarrow> (int \<times> nat) list" where
  "groupby_size ks = map (\<lambda>k. (k, count_list ks k)) (sort (remdups ks))"

text \<open>
  The multi-kill block of \<open>parse_player_stats\<close>: \<open>(ace_rounds, quad_rounds, triple_rounds)\<close>.
  An exception inside its \<open>try\<close> (parsing \<open>round_end\<close>, or \<open>get_round_for_tick\<close>) is
  caught and leaves the three counters at 0.
\<close>

definition multi_kills :: "demo \<Rightarrow> death_row frame \<Rightarrow> string \<Rightarrow> int \<times> int \<times> int" where
  "multi_kills d kills_df player =
     (if \<not> empty_df kills_df \<and> has_col kills_df ''attacker_name'' \<and> has_col kills_df ''tick'' then
        (case round_end d of
           Frame round_end_df \<Rightarrow>
             if \<not> empty_df round_end_df \<and> has_col round_end_df ''tick'' \<and> has_col round_end_df ''round'' then
               (let player_kills = filter (\<lambda>k. d_attacker_name k = Some player) (rows kills_df) in
                if player_kills \<noteq> [] then
                  (case those (map (\<lambda>k. get_round_for_tick (rows round_end_df) (d_tick k)) player_kills) of
                     None \<Rightarrow> (0, 0, 0)
                   | Some rounds \<Rightarrow>
                       (let kills_per_round = groupby_size rounds in
                        (int (length (filter (\<lambda>(r, n). n \<ge> 5) kills_per_round)),
                         int (length (filter (\<lambda>(r, n). n = 4) kills_per_round)),
                         int (length (filter (\<lambda>(r, n). n = 3) kills_per_round)))))
                else (0, 0, 0))
             else (0, 0, 0)
         | _ \<Rightarrow> (0, 0, 0))
      else (0, 0, 0))"

text \<open>
  The body of the loop over the players of \<open>parse_player_stats\<close>, for one player.
  \<open>damage_df\<close> is \<open>None\<close> when \<open>player_hurt\<close> could not be parsed or is not a \<open>DataFrame\<close>.
\<close>

definition player_entry :: "demo \<Rightarrow> death_row frame \<Rightarrow> hurt_row frame option \<Rightarrow> string \<Rightarrow> stats" where
  "player_entry d kills_df damage_df player =
     (let kills =
            (if \<not> empty_df kills_df \<and> has_col kills_df ''attacker_name''
             then int (length (filter (\<lambda>k. d_attacker_name k = Some player) (rows kills_df))) else 0);
          deaths =
            (if \<not> empty_df kills_df \<and> has_col kills_df ''user_name''
             then int (length (filter (\<lambda>k. d_user_name k = Some player) (rows kills_df))) else 0);
          headshot_kills =
            (if \<not> empty_df kills_df \<and> has_col kills_df ''attacker_name'' \<and> has_col kills_df ''headshot''
             then int (length (filter (\<lambda>k. d_attacker_name k = Some player \<and> d_headshot k = True) (rows kills_df)))
             else 0);
          (total_dmg, utility_dmg) =
            (case damage_df of
               None \<Rightarrow> (0, 0)
             | Some df \<Rightarrow>
                 if \<not> empty_df df \<and> has_col df ''attacker_name'' then
                   (let player_damage = filter (\<lambda>h. h_attacker_name h = Some player) (rows df) in
                    (if has_col df ''dmg_health'' then sum_list (map h_dmg_health player_damage) else 0,
                     if has_col df ''weapon'' \<and> has_col df ''dmg_health''
                     then sum_list (map h_dmg_health
                            (filter (\<lambda>h. h_weapon h \<in> set utility_weapons) player_damage))
                     else 0))
                 else (0, 0));
          (ace_rounds, quad_rounds, triple_rounds) = multi_kills d kills_df player
      in \<lparr>kills_total = kills, deaths_total = deaths, dmg = total_dmg, utility_dmg = utility_dmg,
          headshot_kills_total = headshot_kills, ace_rounds_total = ace_rounds,
          quad_rounds_total = quad_rounds, triple_rounds_total = triple_rounds, mvps = 0\<rparr>)"

text \<open>
  \<open>parse_player_stats\<close>: the dictionary from player name to statistics, as the list of
  its items; \<open>{}\<close> when parsing \<open>player_death\<close> raises (the outer \<open>except\<close>). Only observed
  names whose lower-case form is a lower-cased required name get an entry.
\<close>

definition parse_player_stats :: "demo \<Rightarrow> (string \<times> stats) list" where
  "parse_player_stats d =
     (case player_death d of
        Raises \<Rightarrow> []
      | p \<Rightarrow>
          (let kills_df = (case p of Frame df \<Rightarrow> df | _ \<Rightarrow> no_frame);
               damage_df = (case player_hurt d of Frame df \<Rightarrow> Some df | _ \<Rightarrow> None);
               player_names = get_player_names d
           in map (\<lambda>player. (player, player_entry d kills_df damage_df player))
                (filter (\<lambda>player. lower player \<in> lower ` REQUIRED_PLAYERS) player_names)))"

section \<open>Match outcome\<close>

text \<open>\<open>Series.unique()\<close>: the distinct values in the order of their first appearance.\<close>

fun unique :: "'a list \<Rightarrow> 'a list" where
  "unique [] = []"
| "unique (x # xs) = x # filter (\<lambda>y. y \<noteq> x) (unique xs)"

text \<open>
  \<open>Series.mode()\<close>: the most frequent values among those that are not null, in ascending
  order (empty when every value is null).
\<close>

definition mode :: "string option list \<Rightarrow> string list" where
  "mode xs =
     (let vs = strings_of xs
      in sort (remdups (filter (\<lambda>v. \<forall>w \<in> set vs. count_list vs w \<le> count_list vs v) vs)))"

text \<open>
  The loop over \<open>relevant_ticks['name'].unique()\<close> of \<open>parse_map_stats\<close>. The result is
  \<open>Some our_team\<close> when the loop ends (\<open>our_team\<close> is \<open>None\<close> when no player set it), and
  \<open>None\<close> when \<open>mode()[0]\<close> raises because the player's \<open>team_name\<close> values are all null.
\<close>

fun find_our_team :: "tick_row frame \<Rightarrow> tick_row list \<Rightarrow> string option list \<Rightarrow> string option option" where
  "find_our_team ticks_df relevant_ticks [] = Some None"
| "find_our_team ticks_df relevant_ticks (None # names) = find_our_team ticks_df relevant_ticks names"
| "find_our_team ticks_df relevant_ticks (Some player_name # names) =
     (if player_name \<noteq> [] \<and> lower player_name \<in> lower ` REQUIRED_PLAYERS then
        (let player_ticks = filter (\<lambda>r. t_name r = Some player_name) relevant_ticks in
         if length player_ticks > 0 \<and> has_col ticks_df ''team_name'' then
           (case mode (map t_team_name player_ticks) of
              [] \<Rightarrow> None
            | team # _ \<Rightarrow> Some (Some (if team = ''CT'' then ''CT'' else ''T'')))
         else find_our_team ticks_df relevant_ticks names)
      else find_our_team ticks_df relevant_ticks names)"

text \<open>
  The body of the inner \<open>try\<close> of \<open>parse_map_stats\<close> up to the loop's end: \<open>None\<close> when it
  raises (\<open>parse_ticks\<close> raises or does not give a \<open>DataFrame\<close>, the \<open>tick\<close> or \<open>name\<close>
  column is missing, or \<open>mode()[0]\<close> raises).
\<close>

definition our_team_from_ticks :: "demo \<Rightarrow> int \<Rightarrow> string option option" where
  "our_team_from_ticks d last_round_tick =
     (case ticks d of
        Frame ticks_df \<Rightarrow>
          if has_col ticks_df ''tick'' \<and> has_col ticks_df ''name'' then
            (let relevant_ticks =
                   filter (\<lambda>r. t_tick r \<ge> last_round_tick - 1000 \<and> t_tick r \<le> last_round_tick)
                     (rows ticks_df)
             in find_our_team ticks_df relevant_ticks (unique (map t_name relevant_ticks)))
          else None
      | _ \<Rightarrow> None)"

text \<open>The \<open>except\<close> branch of that \<open>try\<close>: compare the rounds won by each side.\<close>

definition won_by_round_count :: "round_row frame \<Rightarrow> int" where
  "won_by_round_count round_end_df =
     (let ct_wins = length (filter (\<lambda>r. r_winner r = ''CT'') (rows round_end_df));
          t_wins = length (filter (\<lambda>r. r_winner r = ''T'') (rows round_end_df))
      in if ct_wins > t_wins then 1 else 0)"

text \<open>The value of \<open>won\<close> in \<open>parse_map_stats\<close>.\<close>

definition determine_won :: "demo \<Rightarrow> round_row frame \<Rightarrow> int" where
  "determine_won d round_end_df =
     (if \<not> empty_df round_end_df \<and> has_col round_end_df ''winner'' \<and> has_col round_end_df ''tick'' then
        (let last_round = last (rows round_end_df);
             winning_side = r_winner last_round;
             last_round_tick = r_tick last_round
         in case our_team_from_ticks d last_round_tick of
              Some (Some our_team) \<Rightarrow> if winning_side = our_team then 1 else 0
            | Some None \<Rightarrow> 0
            | None \<Rightarrow> won_by_round_count round_end_df)
      else 0)"

text \<open>
  The time stamp from a file name that starts with \<open>YYYY_MM_DD_HH_MM\<close>
  (\<open>re.match\<close> with five groups of ASCII digits).
\<close>

definition digits :: "string \<Rightarrow> bool" where
  "digits s \<longleftrightarrow> list_all (\<lambda>c. c \<in> set ''0123456789'') s"

definition filename_timestamp :: "string \<Rightarrow> string option" where
  "filename_timestamp f =
     (if length f \<ge> 16 \<and> digits (take 4 f) \<and> f ! 4 = CHR ''_'' \<and> digits (take 2 (drop 5 f)) \<and>
         f ! 7 = CHR ''_'' \<and> digits (take 2 (drop 8 f)) \<and> f ! 10 = CHR ''_'' \<and>
         digits (take 2 (drop 11 f)) \<and> f ! 13 = CHR ''_'' \<and> digits (take 2 (drop 14 f))
      then Some (take 4 f @ ''-'' @ take 2 (drop 5 f) @ ''-'' @ take 2 (drop 8 f) @ '' '' @
                 take 2 (drop 11 f) @ '':'' @ take 2 (drop 14 f) @ '':00'')
      else None)"

text \<open>
  The dictionary \<open>parse_map_stats\<close> returns, with the fields of the server's
  \<open>MapStatsUpload\<close>.
\<close>

record MapStatsUpload =
  map_name :: string
  date_time :: string
  won :: int

text \<open>\<open>parse_map_stats\<close>: \<open>None\<close> when the outer \<open>except\<close> is reached.\<close>

definition parse_map_stats :: "demo \<Rightarrow> MapStatsUpload option" where
  "parse_map_stats d =
     (case header d of
        None \<Rightarrow> None
      | Some h \<Rightarrow>
          (case round_end d of
             Raises \<Rightarrow> None
           | r \<Rightarrow>
               (let round_end_df = (case r of Frame df \<Rightarrow> df | _ \<Rightarrow> no_frame);
                    won = determine_won d round_end_df;
                    date_time = (case filename_timestamp (stem d) of Some ts \<Rightarrow> Some ts | None \<Rightarrow> mtime d)
                in case date_time of
                     None \<Rightarrow> None
                   | Some dt \<Rightarrow>
                       Some \<lparr>map_name = (case h of Some m \<Rightarrow> m | None \<Rightarrow> ''unknown''),
                             date_time = dt, won = won\<rparr>)))"

section \<open>The upload endpoint and its store\<close>

text \<open>The request body of \<open>/api/upload\<close>.\<close>

record PlayerStatsUpload = stats +
  name :: string

record MatchUpload =
  match_id :: string
  player_stats :: "PlayerStatsUpload list"
  map_stats :: MapStatsUpload

text \<open>
  The tables \<open>map_stats\<close> and \<open>player_stats\<close> of the SQLite database: a row is its
  \<open>match_id\<close> and the other inserted columns (\<open>created_at\<close> is filled in by the database).
\<close>

record database =
  map_stats_table :: "(string \<times> MapStatsUpload) list"
  player_stats_table :: "(string \<times> PlayerStatsUpload) list"

datatype response = Success nat | HTTPException nat

text \<open>
  \<open>upload_match_data\<close>. \<open>sqlite_ok\<close> says that no \<open>sqlite3\<close> call of the request raises;
  when one does, nothing has been committed and the handler answers 500.
\<close>

definition upload_match_data :: "bool \<Rightarrow> database \<Rightarrow> MatchUpload \<Rightarrow> response \<times> database" where
  "upload_match_data sqlite_ok db match_data =
     (if \<not> sqlite_ok then (HTTPException 500, db)
      else if length (filter (\<lambda>row. fst row = match_id match_data) (map_stats_table db)) > 0
      then (HTTPException 409, db)
      else (Success (length (player_stats match_data)),
            db\<lparr>map_stats_table := map_stats_table db @ [(match_id match_data, map_stats match_data)],
               player_stats_table := player_stats_table db @
                 map (\<lambda>player. (match_id match_data, player)) (player_stats match_data)\<rparr>))"

section \<open>Uploading from the parser\<close>

text \<open>
  \<open>requests.post\<close> is a parameter: given the URL, the \<open>Authorization\<close> header if any, the
  payload and the state of the world it talks to, it gives a response with a status
  code or raises, and the new state of that world.
\<close>

datatype post_result = Response nat | RequestException | OtherException

type_synonym 'w post = "string \<Rightarrow> string option \<Rightarrow> MatchUpload \<Rightarrow> 'w \<Rightarrow> post_result \<times> 'w"

definition payload_of :: "string \<Rightarrow> (string \<times> stats) list \<Rightarrow> MapStatsUpload \<Rightarrow> MatchUpload" where
  "payload_of mid pstats mstats =
     \<lparr>match_id = mid,
      player_stats = map (\<lambda>(player_name, st).
          \<lparr>kills_total = kills_total st, deaths_total = deaths_total st, dmg = dmg st,
           utility_dmg = utility_dmg st, headshot_kills_total = headshot_kills_total st,
           ace_rounds_total = ace_rounds_total st, quad_rounds_total = quad_rounds_total st,
           triple_rounds_total = triple_rounds_total st, mvps = mvps st, name = player_name\<rparr>) pstats,
      map_stats = \<lparr>map_name = map_name mstats, date_time = date_time mstats, won = won mstats\<rparr>\<rparr>"

text \<open>\<open>upload_to_api\<close>.\<close>

definition upload_to_api ::
  "'w post \<Rightarrow> string \<Rightarrow> (string \<times> stats) list \<Rightarrow> MapStatsUpload \<Rightarrow> string \<Rightarrow> string option \<Rightarrow> 'w \<Rightarrow> bool \<times> 'w" where
  "upload_to_api post mid pstats mstats api_url api_token w =
     (let payload = payload_of mid pstats mstats;
          authorization = (case api_token of
                             Some t \<Rightarrow> if t \<noteq> [] then Some (''Bearer '' @ t) else None
                           | None \<Rightarrow> None)
      in case post (api_url @ ''/api/upload'') authorization payload w of
           (Response status_code, w') \<Rightarrow>
             (if status_code = 200 then True else if status_code = 409 then False else False, w')
         | (RequestException, w') \<Rightarrow> (False, w')
         | (OtherException, w') \<Rightarrow> (False, w'))"

text \<open>
  The endpoint as the other side of \<open>requests.post\<close>, for a request that the server's
  middleware lets through to the handler.
\<close>

definition api_server :: "bool \<Rightarrow> database post" where
  "api_server sqlite_ok url authorization payload db =
     (case upload_match_data sqlite_ok db payload of
        (Success n, db') \<Rightarrow> (Response 200, db')
      | (HTTPException status_code, db') \<Rightarrow> (Response status_code, db'))"

text \<open>
  \<open>match_exists_in_db\<close> and \<open>upload_to_database\<close>, on the parser's own database;
  \<open>sqlite_ok\<close> as above (an exception makes both return \<open>False\<close>).
\<close>

definition match_exists_in_db :: "bool \<Rightarrow> string \<Rightarrow> database \<Rightarrow> bool" where
  "match_exists_in_db sqlite_ok mid db \<longleftrightarrow>
     sqlite_ok \<and> length (filter (\<lambda>row. fst row = mid) (map_stats_table db)) > 0"

definition upload_to_database ::
  "bool \<Rightarrow> string \<Rightarrow> (string \<times> stats) list \<Rightarrow> MapStatsUpload \<Rightarrow> database \<Rightarrow> bool \<times> database" where
  "upload_to_database sqlite_ok mid pstats mstats db =
     (if \<not> sqlite_ok then (False, db)
      else (True,
            db\<lparr>map_stats_table := map_stats_table db @ [(mid, map_stats (payload_of mid pstats mstats))],
               player_stats_table := player_stats_table db @
                 map (\<lambda>player. (mid, player)) (player_stats (payload_of mid pstats mstats))\<rparr>))"

text \<open>
  \<open>parse_demo_file\<close>: its result, the two stores afterwards (the parser's own database
  and the world behind the API), and the lines it prints that tell its stages apart.
\<close>

datatype line =
    MissingRequiredPlayers "string set"
  | SkippingDemo
  | AllRequiredPlayersFound
  | MatchAlreadyExists
  | ParsingPlayerStats
  | FailedPlayerStats
  | ParsingMapStats
  | FailedMapStats
  | ApiUrlRequired
  | UploadingToApi
  | UploadingToDatabase
  | SchedulingCleanup

definition parse_demo_file ::
  "'w post \<Rightarrow> bool \<Rightarrow> demo \<Rightarrow> bool \<Rightarrow> string option \<Rightarrow> string option \<Rightarrow> bool \<Rightarrow> database \<times> 'w
     \<Rightarrow> bool \<times> (database \<times> 'w) \<times> line list" where
  "parse_demo_file post sqlite_ok d use_api api_url api_token cleanup s =
     (if \<not> check_required_players d then
        (False, s, [MissingRequiredPlayers (missing d), SkippingDemo])
      else if \<not> use_api \<and> match_exists_in_db sqlite_ok (get_match_id d) (fst s) then
        (False, s, [AllRequiredPlayersFound, MatchAlreadyExists])
      else if parse_player_stats d = [] then
        (False, s, [AllRequiredPlayersFound, ParsingPlayerStats, FailedPlayerStats])
      else
        (case parse_map_stats d of
           None \<Rightarrow>
             (False, s, [AllRequiredPlayersFound, ParsingPlayerStats, ParsingMapStats, FailedMapStats])
         | Some mstats \<Rightarrow>
             if use_api then
               (case api_url of
                  None \<Rightarrow>
                    (False, s, [AllRequiredPlayersFound, ParsingPlayerStats, ParsingMapStats, ApiUrlRequired])
                | Some url \<Rightarrow>
                    if url = [] then
                      (False, s, [AllRequiredPlayersFound, ParsingPlayerStats, ParsingMapStats, ApiUrlRequired])
                    else
                      (let (success, w') =
                             upload_to_api post (get_match_id d) (parse_player_stats d) mstats url api_token (snd s)
                       in (success, (fst s, w'),
                           [AllRequiredPlayersFound, ParsingPlayerStats, ParsingMapStats, UploadingToApi] @
                           (if success \<and> cleanup then [SchedulingCleanup] else []))))
             else
               (let (success, db') =
                      upload_to_database sqlite_ok (get_match_id d) (parse_player_stats d) mstats (fst s)
                in (success, (db', snd s),
                    [AllRequiredPlayersFound, ParsingPlayerStats, ParsingMapStats, UploadingToDatabase] @
                    (if success \<and> cleanup then [SchedulingCleanup] else [])))))"

text \<open>
  The three counters of \<open>main\<close>, \<open>(successful, skipped, failed)\<close>, after one result:
  \<open>if result\<close>, \<open>elif result is False\<close>, \<open>else\<close>. A Python result can be \<open>None\<close>.
\<close>

definition tally :: "bool option \<Rightarrow> nat \<times> nat \<times> nat \<Rightarrow> nat \<times> nat \<times> nat" where
  "tally result c =
     (case c of (successful, skipped, failed) \<Rightarrow>
        (case result of
           Some True \<Rightarrow> (successful + 1, skipped, failed)
         | Some False \<Rightarrow> (successful, skipped + 1, failed)
         | None \<Rightarrow> (successful, skipped, failed + 1)))"

text \<open>The loop of \<open>main\<close> over the demo files.\<close>

fun process_demos ::
  "'w post \<Rightarrow> bool \<Rightarrow> bool \<Rightarrow> string option \<Rightarrow> string option \<Rightarrow> bool \<Rightarrow> demo list \<Rightarrow>
     (nat \<times> nat \<times> nat) \<times> (database \<times> 'w) \<Rightarrow> (nat \<times> nat \<times> nat) \<times> (database \<times> 'w)" where
  "process_demos post sqlite_ok use_api api_url api_token cleanup [] cs = cs"
| "process_demos post sqlite_ok use_api api_url api_token cleanup (d # ds) cs =
     (case parse_demo_file post sqlite_ok d use_api api_url api_token cleanup (snd cs) of
        (result, s', out) \<Rightarrow>
          process_demos post sqlite_ok use_api api_url api_token cleanup ds (tally (Some result) (fst cs), s'))"

section \<open>Quantities the statements below refer to\<close>

text \<open>
  The number of kill events of \<open>player\<close> (the attacker's name as given) that
  \<open>get_round_for_tick\<close> places in round \<open>r\<close>.
\<close>

definition kills_in_round :: "round_row list \<Rightarrow> death_row list \<Rightarrow> string \<Rightarrow> int \<Rightarrow> nat" where
  "kills_in_round rs ks player r =
     length (filter (\<lambda>k. d_attacker_name k = Some player \<and> get_round_for_tick rs (d_tick k) = Some r) ks)"

section \<open>An example demo\<close>

text \<open>
  A two-round demo with the five required players, used to run the definitions on
  concrete data.
\<close>

definition kdf_ex :: "death_row frame" where
  "kdf_ex = \<lparr>columns = [''attacker_name'', ''user_name'', ''headshot'', ''tick''],
     rows = [\<lparr>d_attacker_name = Some ''nifty'', d_user_name = Some ''zed'', d_headshot = True, d_tick = 10\<rparr>,
             \<lparr>d_attacker_name = Some ''nifty'', d_user_name = Some ''yan'', d_headshot = False, d_tick = 20\<rparr>,
             \<lparr>d_attacker_name = Some ''nifty'', d_user_name = Some ''xi'', d_headshot = True, d_tick = 30\<rparr>,
             \<lparr>d_attacker_name = Some ''Dybbis'', d_user_name = Some ''zed'', d_headshot = False, d_tick = 40\<rparr>,
             \<lparr>d_attacker_name = Some ''zed'', d_user_name = Some ''Togmannen'', d_headshot = False, d_tick = 50\<rparr>,
             \<lparr>d_attacker_name = Some ''Stutmunn'', d_user_name = Some ''zed'', d_headshot = True, d_tick = 150\<rparr>,
             \<lparr>d_attacker_name = None, d_user_name = Some ''martinsen'', d_headshot = False, d_tick = 160\<rparr>,
             \<lparr>d_attacker_name = Some ''nifty'', d_user_name = Some ''yan'', d_headshot = False, d_tick = 170\<rparr>]\<rparr>"

definition hdf_ex :: "hurt_row frame" where
  "hdf_ex = \<lparr>columns = [''attacker_name'', ''weapon'', ''dmg_health''],
     rows = [\<lparr>h_attacker_name = Some ''nifty'', h_weapon = ''ak47'', h_dmg_health = 40\<rparr>,
             \<lparr>h_attacker_name = Some ''nifty'', h_weapon = ''hegrenade'', h_dmg_health = 50\<rparr>,
             \<lparr>h_attacker_name = Some ''Dybbis'', h_weapon = ''molotov'', h_dmg_health = 8\<rparr>,
             \<lparr>h_attacker_name = Some ''zed'', h_weapon = ''ak47'', h_dmg_health = 100\<rparr>]\<rparr>"

definition rdf_ex :: "round_row frame" where
  "rdf_ex = \<lparr>columns = [''tick'', ''round'', ''winner''],
     rows = [\<lparr>r_tick = 100, r_round = 1, r_winner = ''CT''\<rparr>,
             \<lparr>r_tick = 200, r_round = 2, r_winner = ''T''\<rparr>]\<rparr>"

definition tdf_ex :: "tick_row frame" where
  "tdf_ex = \<lparr>columns = [''tick'', ''name'', ''team_name''],
     rows = [\<lparr>t_tick = 190, t_name = Some ''zed'', t_team_name = Some ''CT''\<rparr>,
             \<lparr>t_tick = 190, t_name = Some ''nifty'', t_team_name = Some ''TERRORIST''\<rparr>,
             \<lparr>t_tick = 195, t_name = Some ''nifty'', t_team_name = Some ''CT''\<rparr>,
             \<lparr>t_tick = 200, t_name = Some ''nifty'', t_team_name = Some ''TERRORIST''\<rparr>]\<rparr>"

definition demo_ex :: demo where
  "demo_ex = \<lparr>player_death = Frame kdf_ex, player_hurt = Frame hdf_ex, round_end = Frame rdf_ex,
     ticks = Frame tdf_ex, header = Some (Some ''de_dust2''), stem = ''2024_05_01_20_30'',
     mtime = None\<rparr>"

text \<open>The entry \<open>parse_player_stats\<close> computes for \<open>nifty\<close> in the example demo.\<close>

definition nifty_ex :: stats where
  "nifty_ex = \<lparr>kills_total = 4, deaths_total = 0, dmg = 90, utility_dmg = 50,
     headshot_kills_total = 2, ace_rounds_total = 0, quad_rounds_total = 0,
     triple_rounds_total = 1, mvps = 0\<rparr>"

text \<open>
  Matching a name of an event against a player's name without regard to case, as the
  specification words it.
\<close>

definition name_matches :: "string option \<Rightarrow> string \<Rightarrow> bool" where
  "name_matches n player \<longleftrightarrow> (case n of Some m \<Rightarrow> lower m = lower player | None \<Rightarrow> False)"


text \<open>The example demo with one more kill, by a player who spells the name \<open>NIFTY\<close>.\<close>

definition demo_case :: demo where
  "demo_case = demo_ex\<lparr>player_death := Frame (kdf_ex\<lparr>rows := rows kdf_ex @
      [\<lparr>d_attacker_name = Some ''NIFTY'', d_user_name = Some ''zed'', d_headshot = False, d_tick = 180\<rparr>]\<rparr>)\<rparr>"


text \<open>A demo in which only two required players appear, spelled in other cases.\<close>

definition demo_two :: demo where
  "demo_two = demo_ex\<lparr>player_death := Frame (kdf_ex\<lparr>rows :=
      [\<lparr>d_attacker_name = Some ''NIFTY'', d_user_name = Some ''zed'', d_headshot = False, d_tick = 10\<rparr>,
       \<lparr>d_attacker_name = Some ''zed'', d_user_name = Some ''dybbis'', d_headshot = False, d_tick = 20\<rparr>]\<rparr>)\<rparr>"

text \<open>An empty store, a payload, and the store after that payload has been inserted.\<close>

definition db_empty :: database where
  "db_empty = \<lparr>map_stats_table = [], player_stats_table = []\<rparr>"

definition payload_ex :: MatchUpload where
  "payload_ex = payload_of ''202405012030'' [(''nifty'', nifty_ex)]
     \<lparr>map_name = ''de_dust2'', date_time = ''2024-05-01 20:30:00'', won = 1\<rparr>"

definition db_one :: database where
  "db_one = \<lparr>map_stats_table = [(''202405012030'', map_stats payload_ex)],
      player_stats_table = map (\<lambda>player. (''202405012030'', player)) (player_stats payload_ex)\<rparr>"















section \<open>Round lookup: the first boundary at or after the tick\<close>

lemma scan_rounds_None: "scan_rounds rs t = None \<longleftrightarrow> (\<forall>r \<in> set rs. r_tick r < t)"
  by (induction rs) auto

lemma scan_rounds_Some:
  "scan_rounds rs t = Some n \<longleftrightarrow>
     (\<exists>i < length rs. t \<le> r_tick (rs ! i) \<and> (\<forall>j < i. r_tick (rs ! j) < t) \<and> n = r_round (rs ! i))"
proof (induction rs)
  case Nil
  then show ?case by simp
next
  case (Cons r rs)
  show ?case
  proof (cases "t \<le> r_tick r")
    case True
    have "(\<exists>i < length (r # rs). t \<le> r_tick ((r # rs) ! i) \<and>
             (\<forall>j < i. r_tick ((r # rs) ! j) < t) \<and> n = r_round ((r # rs) ! i))
          \<longleftrightarrow> n = r_round r"
    proof
      assume "\<exists>i < length (r # rs). t \<le> r_tick ((r # rs) ! i) \<and>
             (\<forall>j < i. r_tick ((r # rs) ! j) < t) \<and> n = r_round ((r # rs) ! i)"
      then obtain i where i: "i < length (r # rs)" "\<forall>j < i. r_tick ((r # rs) ! j) < t"
        "n = r_round ((r # rs) ! i)" by blast
      have "i = 0"
      proof (rule ccontr)
        assume "i \<noteq> 0"
        then have "r_tick ((r # rs) ! 0) < t" using i(2) by blast
        with True show False by simp
      qed
      with i(3) show "n = r_round r" by simp
    next
      assume "n = r_round r"
      with True show "\<exists>i < length (r # rs). t \<le> r_tick ((r # rs) ! i) \<and>
             (\<forall>j < i. r_tick ((r # rs) ! j) < t) \<and> n = r_round ((r # rs) ! i)"
        by (intro exI[of _ 0]) simp
    qed
    with True show ?thesis by auto
  next
    case False
    have "(\<exists>i < length (r # rs). t \<le> r_tick ((r # rs) ! i) \<and>
             (\<forall>j < i. r_tick ((r # rs) ! j) < t) \<and> n = r_round ((r # rs) ! i))
          \<longleftrightarrow> (\<exists>i < length rs. t \<le> r_tick (rs ! i) \<and>
             (\<forall>j < i. r_tick (rs ! j) < t) \<and> n = r_round (rs ! i))"
      (is "?L \<longleftrightarrow> ?R")
    proof
      assume ?L
      then obtain i where i: "i < length (r # rs)" "t \<le> r_tick ((r # rs) ! i)"
        "\<forall>j < i. r_tick ((r # rs) ! j) < t" "n = r_round ((r # rs) ! i)" by blast
      from i(2) False obtain k where k: "i = Suc k" by (cases i) auto
      have "\<forall>j < k. r_tick (rs ! j) < t"
      proof (intro allI impI)
        fix j assume "j < k"
        then have "Suc j < i" using k by simp
        then have "r_tick ((r # rs) ! Suc j) < t" using i(3) by blast
        then show "r_tick (rs ! j) < t" by simp
      qed
      with i k show ?R by (intro exI[of _ k]) simp
    next
      assume ?R
      then obtain i where i: "i < length rs" "t \<le> r_tick (rs ! i)"
        "\<forall>j < i. r_tick (rs ! j) < t" "n = r_round (rs ! i)" by blast
      have "\<forall>j < Suc i. r_tick ((r # rs) ! j) < t"
      proof (intro allI impI)
        fix j assume j: "j < Suc i"
        show "r_tick ((r # rs) ! j) < t"
        proof (cases j)
          case 0
          with False show ?thesis by simp
        next
          case (Suc m)
          with j i(3) show ?thesis by simp
        qed
      qed
      with i show ?L by (intro exI[of _ "Suc i"]) simp
    qed
    with False Cons.IH show ?thesis by simp
  qed
qed

text \<open>
  C2. For a non-empty sequence of round boundaries (tick-ordered or not) and every tick
  \<open>t\<close>, \<open>get_round_for_tick\<close> returns a round: the round of the first boundary whose
  tick is at least \<open>t\<close> (every earlier boundary ends before \<open>t\<close>), and the round of the
  last boundary when \<open>t\<close> is above every boundary's tick.
\<close>

theorem get_round_for_tick_first_boundary:
  assumes "rs \<noteq> []"
  shows "(\<exists>i < length rs. t \<le> r_tick (rs ! i) \<and> (\<forall>j < i. r_tick (rs ! j) < t) \<and>
            get_round_for_tick rs t = Some (r_round (rs ! i)))
         \<or> ((\<forall>r \<in> set rs. r_tick r < t) \<and> get_round_for_tick rs t = Some (r_round (last rs)))"
proof (cases "scan_rounds rs t")
  case None
  then have "\<forall>r \<in> set rs. r_tick r < t" by (simp add: scan_rounds_None)
  moreover have "get_round_for_tick rs t = Some (r_round (last rs))"
    using None assms by (simp add: get_round_for_tick_def)
  ultimately show ?thesis by blast
next
  case (Some n)
  then obtain i where "i < length rs" "t \<le> r_tick (rs ! i)" "\<forall>j < i. r_tick (rs ! j) < t"
    "n = r_round (rs ! i)" using scan_rounds_Some by blast
  moreover have "get_round_for_tick rs t = Some n"
    using Some by (simp add: get_round_for_tick_def)
  ultimately show ?thesis by blast
qed

theorem get_round_for_tick_first_boundary_witness:
  "rows rdf_ex \<noteq> [] \<and> get_round_for_tick (rows rdf_ex) 100 = Some 1 \<and>
   get_round_for_tick (rows rdf_ex) 101 = Some 2 \<and> get_round_for_tick (rows rdf_ex) 250 = Some 2"
proof -
  have ne: "rows rdf_ex \<noteq> []" by (simp add: rdf_ex_def)
  from get_round_for_tick_first_boundary[OF ne, of 100]
       get_round_for_tick_first_boundary[OF ne, of 101]
       get_round_for_tick_first_boundary[OF ne, of 250] ne
  show ?thesis by (simp add: rdf_ex_def get_round_for_tick_def)
qed


section \<open>Multi-kill rounds\<close>

lemma get_round_for_tick_total: "rs \<noteq> [] \<Longrightarrow> \<exists>n. get_round_for_tick rs t = Some n"
  by (cases "scan_rounds rs t") (simp_all add: get_round_for_tick_def)

lemma those_map_Some: "those (map (\<lambda>x. Some (f x)) xs) = Some (map f xs)"
  by (induction xs) simp_all

lemma those_rounds:
  assumes "rs \<noteq> []"
  shows "those (map (\<lambda>k. get_round_for_tick rs (d_tick k)) ks) =
         Some (map (\<lambda>k. the (get_round_for_tick rs (d_tick k))) ks)"
proof -
  have "map (\<lambda>k. get_round_for_tick rs (d_tick k)) ks =
        map (\<lambda>k. Some (the (get_round_for_tick rs (d_tick k)))) ks"
  proof (rule map_cong[OF refl])
    fix k
    from get_round_for_tick_total[OF assms, of "d_tick k"]
    obtain n where "get_round_for_tick rs (d_tick k) = Some n" by blast
    then show "get_round_for_tick rs (d_tick k) = Some (the (get_round_for_tick rs (d_tick k)))" by simp
  qed
  then show ?thesis by (simp only: those_map_Some)
qed

lemma count_list_map_filter: "count_list (map f xs) y = length (filter (\<lambda>x. f x = y) xs)"
  by (induction xs) simp_all

lemma count_rounds:
  assumes "rs \<noteq> []"
  shows "count_list (map (\<lambda>k. the (get_round_for_tick rs (d_tick k)))
            (filter (\<lambda>k. d_attacker_name k = Some p) ks)) r = kills_in_round rs ks p r"
proof -
  have eq: "\<And>k. (the (get_round_for_tick rs (d_tick k)) = r) = (get_round_for_tick rs (d_tick k) = Some r)"
    using get_round_for_tick_total[OF assms] by (metis option.sel)
  show ?thesis
    by (simp add: count_list_map_filter kills_in_round_def eq)
qed

lemma groupby_tier_card:
  assumes "\<not> P 0"
  shows "length (filter (\<lambda>(r, n). P n) (groupby_size ks)) = card {r. P (count_list ks r)}"
proof -
  have "length (filter (\<lambda>(r, n). P n) (groupby_size ks)) =
        length (filter (\<lambda>r. P (count_list ks r)) (sort (remdups ks)))"
    by (simp add: groupby_size_def filter_map comp_def)
  also have "\<dots> = card (set (filter (\<lambda>r. P (count_list ks r)) (sort (remdups ks))))"
  proof -
    have "distinct (filter (\<lambda>r. P (count_list ks r)) (sort (remdups ks)))" by simp
    then show ?thesis by (rule distinct_card[symmetric])
  qed
  also have "set (filter (\<lambda>r. P (count_list ks r)) (sort (remdups ks))) = {r. P (count_list ks r)}"
  proof -
    have "r \<in> set ks" if "P (count_list ks r)" for r
    proof (rule ccontr)
      assume "r \<notin> set ks"
      then have "count_list ks r = 0" by (simp add: count_list_0_iff)
      with that assms show False by simp
    qed
    then show ?thesis by auto
  qed
  finally show ?thesis .
qed

lemma multi_kills_cards:
  assumes kdf: "\<not> empty_df kdf" "has_col kdf ''attacker_name''" "has_col kdf ''tick''"
    and rdf: "round_end d = Frame rdf" "\<not> empty_df rdf" "has_col rdf ''tick''" "has_col rdf ''round''"
  shows "multi_kills d kdf p =
           (int (card {r. 5 \<le> kills_in_round (rows rdf) (rows kdf) p r}),
            int (card {r. kills_in_round (rows rdf) (rows kdf) p r = 4}),
            int (card {r. kills_in_round (rows rdf) (rows kdf) p r = 3}))"
proof -
  let ?pk = "filter (\<lambda>k. d_attacker_name k = Some p) (rows kdf)"
  let ?rounds = "map (\<lambda>k. the (get_round_for_tick (rows rdf) (d_tick k))) ?pk"
  have ne: "rows rdf \<noteq> []" using rdf(2) by (simp add: empty_df_def)
  have cnt: "count_list ?rounds r = kills_in_round (rows rdf) (rows kdf) p r" for r
    by (rule count_rounds[OF ne])
  show ?thesis
  proof (cases "?pk = []")
    case True
    then have "kills_in_round (rows rdf) (rows kdf) p r = 0" for r
      using cnt[of r, symmetric] by simp
    then show ?thesis using kdf rdf True by (simp add: multi_kills_def)
  next
    case False
    have a: "length (filter (\<lambda>(r, n). 5 \<le> n) (groupby_size ?rounds)) =
             card {r. 5 \<le> kills_in_round (rows rdf) (rows kdf) p r}"
      using groupby_tier_card[of "\<lambda>n. 5 \<le> n" ?rounds] by (simp only: cnt)
    have b: "length (filter (\<lambda>(r, n). n = 4) (groupby_size ?rounds)) =
             card {r. kills_in_round (rows rdf) (rows kdf) p r = 4}"
      using groupby_tier_card[of "\<lambda>n. n = 4" ?rounds] by (simp only: cnt)
    have c: "length (filter (\<lambda>(r, n). n = 3) (groupby_size ?rounds)) =
             card {r. kills_in_round (rows rdf) (rows kdf) p r = 3}"
      using groupby_tier_card[of "\<lambda>n. n = 3" ?rounds] by (simp only: cnt)
    have "multi_kills d kdf p =
            (let kills_per_round = groupby_size ?rounds in
               (int (length (filter (\<lambda>(r, n). n \<ge> 5) kills_per_round)),
                int (length (filter (\<lambda>(r, n). n = 4) kills_per_round)),
                int (length (filter (\<lambda>(r, n). n = 3) kills_per_round))))"
      using kdf rdf False by (simp add: multi_kills_def those_rounds[OF ne])
    then show ?thesis by (simp only: Let_def a b c)
  qed
qed

lemma parse_player_stats_entry:
  assumes "(p, st) \<in> set (parse_player_stats d)"
  shows "\<exists>kdf. player_death d = Frame kdf \<and> p \<in> set (get_player_names d) \<and>
           lower p \<in> lower ` REQUIRED_PLAYERS \<and>
           st = player_entry d kdf (case player_hurt d of Frame df \<Rightarrow> Some df | _ \<Rightarrow> None) p"
proof (cases "player_death d")
  case Raises
  with assms show ?thesis by (simp add: parse_player_stats_def)
next
  case NotFrame
  with assms show ?thesis by (simp add: parse_player_stats_def get_player_names_def)
next
  case (Frame kdf)
  with assms show ?thesis by (auto simp add: parse_player_stats_def)
qed

lemma player_entry_multi_kills:
  "(ace_rounds_total (player_entry d kdf ddf p), quad_rounds_total (player_entry d kdf ddf p),
    triple_rounds_total (player_entry d kdf ddf p)) = multi_kills d kdf p"
  by (simp add: player_entry_def Let_def split: prod.splits)

lemma get_player_names_rows:
  assumes "player_death d = Frame kdf" "p \<in> set (get_player_names d)"
  shows "\<not> empty_df kdf"
proof -
  have "rows kdf \<noteq> []" using assms
    by (auto simp add: get_player_names_def strings_of_def Let_def split: if_splits)
  moreover have "columns kdf \<noteq> []" using assms
    by (auto simp add: get_player_names_def strings_of_def has_col_def Let_def split: if_splits)
  ultimately show ?thesis by (simp add: empty_df_def)
qed

lemma finite_rounds_with_kills: "finite {r. 1 \<le> kills_in_round rs ks p r}"
proof -
  have "{r. 1 \<le> kills_in_round rs ks p r} \<subseteq> (\<lambda>k. the (get_round_for_tick rs (d_tick k))) ` set ks"
  proof
    fix r assume "r \<in> {r. 1 \<le> kills_in_round rs ks p r}"
    then have "filter (\<lambda>k. d_attacker_name k = Some p \<and> get_round_for_tick rs (d_tick k) = Some r) ks \<noteq> []"
      by (auto simp add: kills_in_round_def)
    then obtain k where "k \<in> set ks" "get_round_for_tick rs (d_tick k) = Some r"
      by (auto simp add: filter_empty_conv)
    then show "r \<in> (\<lambda>k. the (get_round_for_tick rs (d_tick k))) ` set ks" by force
  qed
  then show ?thesis by (rule finite_subset) simp
qed

lemma tier_partition:
  fixes n :: "int \<Rightarrow> nat"
  assumes "finite {r. 1 \<le> n r}"
  shows "card {r. 5 \<le> n r} + card {r. n r = 4} + card {r. n r = 3} + card {r. 1 \<le> n r \<and> n r \<le> 2}
         = card {r. 1 \<le> n r}"
proof -
  have fin: "finite {r. 5 \<le> n r}" "finite {r. n r = 4}" "finite {r. n r = 3}" "finite {r. 1 \<le> n r \<and> n r \<le> 2}"
    by (rule finite_subset[OF _ assms], auto)+
  have "{r. 1 \<le> n r} = {r. 5 \<le> n r} \<union> ({r. n r = 4} \<union> ({r. n r = 3} \<union> {r. 1 \<le> n r \<and> n r \<le> 2}))"
    by (auto simp add: set_eq_iff)
  moreover have "card ({r. 5 \<le> n r} \<union> ({r. n r = 4} \<union> ({r. n r = 3} \<union> {r. 1 \<le> n r \<and> n r \<le> 2})))
      = card {r. 5 \<le> n r} + (card {r. n r = 4} + (card {r. n r = 3} + card {r. 1 \<le> n r \<and> n r \<le> 2}))"
    using fin by (subst card_Un_disjoint, simp, simp, fastforce)+ simp
  ultimately show ?thesis by simp
qed

text \<open>
  C3. When the kill table has its \<open>attacker_name\<close> and \<open>tick\<close> columns and the round
  table is present with its \<open>tick\<close> and \<open>round\<close> columns, every entry of
  \<open>parse_player_stats\<close> has \<open>ace_rounds_total\<close> equal to the number of rounds in which
  the player has at least 5 kills, \<open>quad_rounds_total\<close> the number of rounds with exactly
  4 and \<open>triple_rounds_total\<close> the number with exactly 3. The three tiers and the rounds
  with 1 or 2 kills partition the rounds in which the player has a kill: the four
  counts add up to the number of such rounds, so no round is counted in two tiers.
\<close>

theorem multi_kill_tiers:
  assumes "player_death d = Frame kdf" "has_col kdf ''attacker_name''" "has_col kdf ''tick''"
    and "round_end d = Frame rdf" "\<not> empty_df rdf" "has_col rdf ''tick''" "has_col rdf ''round''"
    and "(p, st) \<in> set (parse_player_stats d)"
  shows "ace_rounds_total st = int (card {r. 5 \<le> kills_in_round (rows rdf) (rows kdf) p r}) \<and>
         quad_rounds_total st = int (card {r. kills_in_round (rows rdf) (rows kdf) p r = 4}) \<and>
         triple_rounds_total st = int (card {r. kills_in_round (rows rdf) (rows kdf) p r = 3}) \<and>
         ace_rounds_total st + quad_rounds_total st + triple_rounds_total st +
           int (card {r. 1 \<le> kills_in_round (rows rdf) (rows kdf) p r \<and>
                         kills_in_round (rows rdf) (rows kdf) p r \<le> 2})
         = int (card {r. 1 \<le> kills_in_round (rows rdf) (rows kdf) p r})"
proof -
  from parse_player_stats_entry[OF assms(8)] assms(1)
  have p: "p \<in> set (get_player_names d)"
    and st: "st = player_entry d kdf (case player_hurt d of Frame df \<Rightarrow> Some df | _ \<Rightarrow> None) p"
    by auto
  have ne: "\<not> empty_df kdf" by (rule get_player_names_rows[OF assms(1) p])
  have mk: "(ace_rounds_total st, quad_rounds_total st, triple_rounds_total st) =
           (int (card {r. 5 \<le> kills_in_round (rows rdf) (rows kdf) p r}),
            int (card {r. kills_in_round (rows rdf) (rows kdf) p r = 4}),
            int (card {r. kills_in_round (rows rdf) (rows kdf) p r = 3}))"
    unfolding st player_entry_multi_kills
    by (rule multi_kills_cards[OF ne assms(2,3,4,5,6,7)])
  from tier_partition[OF finite_rounds_with_kills[of "rows rdf" "rows kdf" p]] mk
  show ?thesis by simp
qed

lemma nifty_ex_entry: "(''nifty'', nifty_ex) \<in> set (parse_player_stats demo_ex)"
  by code_simp

theorem multi_kill_tiers_witness:
  "player_death demo_ex = Frame kdf_ex \<and> has_col kdf_ex ''attacker_name'' \<and> has_col kdf_ex ''tick'' \<and>
   round_end demo_ex = Frame rdf_ex \<and> \<not> empty_df rdf_ex \<and> has_col rdf_ex ''tick'' \<and>
   has_col rdf_ex ''round'' \<and> (''nifty'', nifty_ex) \<in> set (parse_player_stats demo_ex) \<and>
   card {r. 5 \<le> kills_in_round (rows rdf_ex) (rows kdf_ex) ''nifty'' r} = 0 \<and>
   card {r. kills_in_round (rows rdf_ex) (rows kdf_ex) ''nifty'' r = 4} = 0 \<and>
   card {r. kills_in_round (rows rdf_ex) (rows kdf_ex) ''nifty'' r = 3} = 1 \<and>
   kills_in_round (rows rdf_ex) (rows kdf_ex) ''nifty'' 1 = 3"
proof -
  have h1: "player_death demo_ex = Frame kdf_ex" by (simp add: demo_ex_def)
  have h2: "has_col kdf_ex ''attacker_name''" by (simp add: has_col_def kdf_ex_def)
  have h3: "has_col kdf_ex ''tick''" by (simp add: has_col_def kdf_ex_def)
  have h4: "round_end demo_ex = Frame rdf_ex" by (simp add: demo_ex_def)
  have h5: "\<not> empty_df rdf_ex" by (simp add: empty_df_def rdf_ex_def)
  have h6: "has_col rdf_ex ''tick''" by (simp add: has_col_def rdf_ex_def)
  have h7: "has_col rdf_ex ''round''" by (simp add: has_col_def rdf_ex_def)
  have k: "kills_in_round (rows rdf_ex) (rows kdf_ex) ''nifty'' 1 = 3" by code_simp
  from multi_kill_tiers[OF h1 h2 h3 h4 h5 h6 h7 nifty_ex_entry] h1 h2 h3 h4 h5 h6 h7 nifty_ex_entry k
  show ?thesis by (simp add: nifty_ex_def)
qed

section \<open>Per-player counts and damage\<close>

lemma player_entry_kills:
  "kills_total (player_entry d kdf ddf p) =
     (if \<not> empty_df kdf \<and> has_col kdf ''attacker_name''
      then int (length (filter (\<lambda>k. d_attacker_name k = Some p) (rows kdf))) else 0)"
  by (simp add: player_entry_def Let_def split: prod.splits)

lemma player_entry_deaths:
  "deaths_total (player_entry d kdf ddf p) =
     (if \<not> empty_df kdf \<and> has_col kdf ''user_name''
      then int (length (filter (\<lambda>k. d_user_name k = Some p) (rows kdf))) else 0)"
  by (simp add: player_entry_def Let_def split: prod.splits)

lemma player_entry_headshots:
  "headshot_kills_total (player_entry d kdf ddf p) =
     (if \<not> empty_df kdf \<and> has_col kdf ''attacker_name'' \<and> has_col kdf ''headshot''
      then int (length (filter (\<lambda>k. d_attacker_name k = Some p \<and> d_headshot k) (rows kdf))) else 0)"
  by (simp add: player_entry_def Let_def split: prod.splits)


lemma player_entry_damage:
  "(dmg (player_entry d kdf ddf p), utility_dmg (player_entry d kdf ddf p)) =
     (case ddf of
        None \<Rightarrow> (0, 0)
      | Some df \<Rightarrow>
          if \<not> empty_df df \<and> has_col df ''attacker_name'' then
            (if has_col df ''dmg_health''
             then sum_list (map h_dmg_health (filter (\<lambda>h. h_attacker_name h = Some p) (rows df))) else 0,
             if has_col df ''weapon'' \<and> has_col df ''dmg_health''
             then sum_list (map h_dmg_health
                    (filter (\<lambda>h. h_weapon h \<in> set utility_weapons)
                       (filter (\<lambda>h. h_attacker_name h = Some p) (rows df))))
             else 0)
          else (0, 0))"
  by (simp add: player_entry_def Let_def split: prod.splits option.splits)

lemma sum_list_filter_le_int:
  fixes f :: "'a \<Rightarrow> int"
  assumes "\<forall>x \<in> set xs. 0 \<le> f x"
  shows "sum_list (map f (filter P xs)) \<le> sum_list (map f xs)"
  using assms by (induction xs) auto

lemma sum_list_nonneg_int:
  fixes f :: "'a \<Rightarrow> int"
  assumes "\<forall>x \<in> set xs. 0 \<le> f x"
  shows "0 \<le> sum_list (map f xs)"
  using assms by (induction xs) auto

text \<open>
  C10. For every entry of \<open>parse_player_stats\<close>: if every row of the damage table has a
  non-negative \<open>dmg_health\<close>, then \<open>utility_dmg\<close> is at most \<open>dmg\<close>.
\<close>

theorem utility_dmg_le_dmg:
  assumes "(p, st) \<in> set (parse_player_stats d)"
    and "case player_hurt d of Frame df \<Rightarrow> \<forall>h \<in> set (rows df). 0 \<le> h_dmg_health h | _ \<Rightarrow> True"
  shows "utility_dmg st \<le> dmg st"
proof -
  from parse_player_stats_entry[OF assms(1)] obtain kdf where
    st: "st = player_entry d kdf (case player_hurt d of Frame df \<Rightarrow> Some df | _ \<Rightarrow> None) p"
    by blast
  show ?thesis
  proof (cases "player_hurt d")
    case (Frame df)
    let ?pd = "filter (\<lambda>h. h_attacker_name h = Some p) (rows df)"
    from assms(2) Frame have nn: "\<forall>h \<in> set ?pd. 0 \<le> h_dmg_health h" by simp
    have le: "sum_list (map h_dmg_health (filter (\<lambda>h. h_weapon h \<in> set utility_weapons) ?pd))
              \<le> sum_list (map h_dmg_health ?pd)"
      by (rule sum_list_filter_le_int[OF nn])
    have ge: "0 \<le> sum_list (map h_dmg_health ?pd)"
      by (rule sum_list_nonneg_int[OF nn])
    from player_entry_damage[of d kdf "Some df" p] le ge show ?thesis
      unfolding st Frame by (simp split: if_splits)
  next
    case Raises
    with player_entry_damage[of d kdf None p] show ?thesis unfolding st by simp
  next
    case NotFrame
    with player_entry_damage[of d kdf None p] show ?thesis unfolding st by simp
  qed
qed


lemma map_of_computed:
  "k \<in> set ks \<Longrightarrow> map_of (map (\<lambda>k. (k, f k)) ks) k = Some (f k)"
  by (induction ks) auto

lemma parse_player_stats_lookup:
  assumes "player_death d = Frame kdf" "p \<in> set (get_player_names d)"
    "lower p \<in> lower ` REQUIRED_PLAYERS"
  shows "map_of (parse_player_stats d) p =
           Some (player_entry d kdf (case player_hurt d of Frame df \<Rightarrow> Some df | _ \<Rightarrow> None) p)"
proof -
  have "p \<in> set (filter (\<lambda>player. lower player \<in> lower ` REQUIRED_PLAYERS) (get_player_names d))"
    using assms(2,3) by simp
  from map_of_computed[OF this] show ?thesis
    using assms(1) by (simp add: parse_player_stats_def)
qed

text \<open>
  C6, as amended. With the kill and damage tables present, every observed name \<open>p\<close>
  whose lower-case form is a lower-cased required name has an entry, in which
  \<open>kills_total\<close> is the number of kill events whose \<open>attacker_name\<close> equals \<open>p\<close> exactly
  (case-sensitively), \<open>deaths_total\<close> the number whose \<open>user_name\<close> equals \<open>p\<close>,
  \<open>headshot_kills_total\<close> the number whose attacker equals \<open>p\<close> and whose headshot flag
  is set, and \<open>dmg\<close> the sum of \<open>dmg_health\<close> over the damage events whose attacker equals
  \<open>p\<close>. When every name in these events that matches \<open>p\<close> without regard to case is
  spelled exactly \<open>p\<close>, these are the case-insensitive counts and sum.
\<close>

theorem stats_count_events_of_observed_name:
  assumes "player_death d = Frame kdf" "has_col kdf ''attacker_name''" "has_col kdf ''user_name''"
    "has_col kdf ''headshot''"
    and "player_hurt d = Frame hdf" "\<not> empty_df hdf" "has_col hdf ''attacker_name''"
    "has_col hdf ''dmg_health''"
    and "p \<in> set (get_player_names d)" "lower p \<in> lower ` REQUIRED_PLAYERS"
  shows "\<exists>st. map_of (parse_player_stats d) p = Some st \<and>
           kills_total st = int (length (filter (\<lambda>k. d_attacker_name k = Some p) (rows kdf))) \<and>
           deaths_total st = int (length (filter (\<lambda>k. d_user_name k = Some p) (rows kdf))) \<and>
           headshot_kills_total st =
             int (length (filter (\<lambda>k. d_attacker_name k = Some p \<and> d_headshot k) (rows kdf))) \<and>
           dmg st = sum_list (map h_dmg_health (filter (\<lambda>h. h_attacker_name h = Some p) (rows hdf))) \<and>
           ((\<forall>k \<in> set (rows kdf). (name_matches (d_attacker_name k) p \<longrightarrow> d_attacker_name k = Some p) \<and>
                                   (name_matches (d_user_name k) p \<longrightarrow> d_user_name k = Some p)) \<and>
            (\<forall>h \<in> set (rows hdf). name_matches (h_attacker_name h) p \<longrightarrow> h_attacker_name h = Some p)
            \<longrightarrow>
              kills_total st = int (length (filter (\<lambda>k. name_matches (d_attacker_name k) p) (rows kdf))) \<and>
              deaths_total st = int (length (filter (\<lambda>k. name_matches (d_user_name k) p) (rows kdf))) \<and>
              headshot_kills_total st =
                int (length (filter (\<lambda>k. name_matches (d_attacker_name k) p \<and> d_headshot k) (rows kdf))) \<and>
              dmg st = sum_list (map h_dmg_health (filter (\<lambda>h. name_matches (h_attacker_name h) p) (rows hdf))))"
proof -
  let ?st = "player_entry d kdf (Some hdf) p"
  have look: "map_of (parse_player_stats d) p = Some ?st"
    using parse_player_stats_lookup[OF assms(1,9,10)] assms(5) by simp
  have ne: "\<not> empty_df kdf" by (rule get_player_names_rows[OF assms(1,9)])
  have k: "kills_total ?st = int (length (filter (\<lambda>k. d_attacker_name k = Some p) (rows kdf)))"
    using ne assms(2) by (simp add: player_entry_kills)
  have v: "deaths_total ?st = int (length (filter (\<lambda>k. d_user_name k = Some p) (rows kdf)))"
    using ne assms(3) by (simp add: player_entry_deaths)
  have h: "headshot_kills_total ?st =
             int (length (filter (\<lambda>k. d_attacker_name k = Some p \<and> d_headshot k) (rows kdf)))"
    using ne assms(2,4) by (simp add: player_entry_headshots)
  have dm: "dmg ?st = sum_list (map h_dmg_health (filter (\<lambda>h. h_attacker_name h = Some p) (rows hdf)))"
    using player_entry_damage[of d kdf "Some hdf" p] assms(6,7,8) by simp
  have same: "name_matches (Some p) p" by (simp add: name_matches_def)
  have ci: "kills_total ?st = int (length (filter (\<lambda>k. name_matches (d_attacker_name k) p) (rows kdf))) \<and>
            deaths_total ?st = int (length (filter (\<lambda>k. name_matches (d_user_name k) p) (rows kdf))) \<and>
            headshot_kills_total ?st =
              int (length (filter (\<lambda>k. name_matches (d_attacker_name k) p \<and> d_headshot k) (rows kdf))) \<and>
            dmg ?st = sum_list (map h_dmg_health (filter (\<lambda>h. name_matches (h_attacker_name h) p) (rows hdf)))"
    if sp: "\<forall>k \<in> set (rows kdf). (name_matches (d_attacker_name k) p \<longrightarrow> d_attacker_name k = Some p) \<and>
                                   (name_matches (d_user_name k) p \<longrightarrow> d_user_name k = Some p)"
      and sh: "\<forall>h \<in> set (rows hdf). name_matches (h_attacker_name h) p \<longrightarrow> h_attacker_name h = Some p"
  proof -
    have a: "filter (\<lambda>k. name_matches (d_attacker_name k) p) (rows kdf) =
             filter (\<lambda>k. d_attacker_name k = Some p) (rows kdf)"
      by (rule filter_cong[OF refl]) (use sp same in auto)
    have b: "filter (\<lambda>k. name_matches (d_user_name k) p) (rows kdf) =
             filter (\<lambda>k. d_user_name k = Some p) (rows kdf)"
      by (rule filter_cong[OF refl]) (use sp same in auto)
    have c: "filter (\<lambda>k. name_matches (d_attacker_name k) p \<and> d_headshot k) (rows kdf) =
             filter (\<lambda>k. d_attacker_name k = Some p \<and> d_headshot k) (rows kdf)"
      by (rule filter_cong[OF refl]) (use sp same in auto)
    have e: "filter (\<lambda>h. name_matches (h_attacker_name h) p) (rows hdf) =
             filter (\<lambda>h. h_attacker_name h = Some p) (rows hdf)"
      by (rule filter_cong[OF refl]) (use sh same in auto)
    show ?thesis by (simp only: a b c e k v h dm)
  qed
  from look k v h dm ci show ?thesis by blast
qed

text \<open>
  C6 as stated fails: in \<open>demo_case\<close> five kill events have an attacker matching
  \<open>nifty\<close> without regard to case, and the entry of \<open>nifty\<close> has \<open>kills_total = 4\<close>.
\<close>

theorem case_insensitive_count_counterexample:
  "map_option kills_total (map_of (parse_player_stats demo_case) ''nifty'') = Some 4 \<and>
   int (length (filter (\<lambda>k. name_matches (d_attacker_name k) ''nifty'')
          (case player_death demo_case of Frame df \<Rightarrow> rows df | _ \<Rightarrow> []))) = 5"
  by code_simp






theorem utility_dmg_le_dmg_witness:
  "(''nifty'', nifty_ex) \<in> set (parse_player_stats demo_ex) \<and>
   player_hurt demo_ex = Frame hdf_ex \<and> list_all (\<lambda>h. 0 \<le> h_dmg_health h) (rows hdf_ex) \<and>
   utility_dmg nifty_ex = 50 \<and> dmg nifty_ex = 90 \<and> utility_dmg nifty_ex \<le> dmg nifty_ex"
proof -
  have hd: "player_hurt demo_ex = Frame hdf_ex" by (simp add: demo_ex_def)
  have nn: "list_all (\<lambda>h. 0 \<le> h_dmg_health h) (rows hdf_ex)" by (simp add: hdf_ex_def)
  then have "case player_hurt demo_ex of Frame df \<Rightarrow> \<forall>h \<in> set (rows df). 0 \<le> h_dmg_health h | _ \<Rightarrow> True"
    by (simp add: hd list_all_iff)
  from utility_dmg_le_dmg[OF nifty_ex_entry this] nifty_ex_entry hd nn
  show ?thesis by (simp add: nifty_ex_def)
qed


theorem stats_count_events_of_observed_name_witness:
  "player_death demo_ex = Frame kdf_ex \<and> has_col kdf_ex ''attacker_name'' \<and> has_col kdf_ex ''user_name'' \<and>
   has_col kdf_ex ''headshot'' \<and> player_hurt demo_ex = Frame hdf_ex \<and> \<not> empty_df hdf_ex \<and>
   has_col hdf_ex ''attacker_name'' \<and> has_col hdf_ex ''dmg_health'' \<and>
   ''nifty'' \<in> set (get_player_names demo_ex) \<and> lower ''nifty'' \<in> lower ` REQUIRED_PLAYERS \<and>
   map_of (parse_player_stats demo_ex) ''nifty'' = Some nifty_ex \<and>
   int (length (filter (\<lambda>k. d_attacker_name k = Some ''nifty'') (rows kdf_ex))) = 4 \<and>
   int (length (filter (\<lambda>k. name_matches (d_attacker_name k) ''nifty'') (rows kdf_ex))) = 4 \<and>
   sum_list (map h_dmg_health (filter (\<lambda>h. name_matches (h_attacker_name h) ''nifty'') (rows hdf_ex))) = 90"
proof -
  have h1: "player_death demo_ex = Frame kdf_ex" by (simp add: demo_ex_def)
  have h2: "has_col kdf_ex ''attacker_name''" by (simp add: has_col_def kdf_ex_def)
  have h3: "has_col kdf_ex ''user_name''" by (simp add: has_col_def kdf_ex_def)
  have h4: "has_col kdf_ex ''headshot''" by (simp add: has_col_def kdf_ex_def)
  have h5: "player_hurt demo_ex = Frame hdf_ex" by (simp add: demo_ex_def)
  have h6: "\<not> empty_df hdf_ex" by (simp add: empty_df_def hdf_ex_def)
  have h7: "has_col hdf_ex ''attacker_name''" by (simp add: has_col_def hdf_ex_def)
  have h8: "has_col hdf_ex ''dmg_health''" by (simp add: has_col_def hdf_ex_def)
  have h9: "''nifty'' \<in> set (get_player_names demo_ex)" by code_simp
  have h10: "lower ''nifty'' \<in> lower ` REQUIRED_PLAYERS" by (simp add: REQUIRED_PLAYERS_def)
  have ex: "map_of (parse_player_stats demo_ex) ''nifty'' = Some nifty_ex" by code_simp
  have sp: "(\<forall>k \<in> set (rows kdf_ex).
               (name_matches (d_attacker_name k) ''nifty'' \<longrightarrow> d_attacker_name k = Some ''nifty'') \<and>
               (name_matches (d_user_name k) ''nifty'' \<longrightarrow> d_user_name k = Some ''nifty'')) \<and>
            (\<forall>h \<in> set (rows hdf_ex). name_matches (h_attacker_name h) ''nifty'' \<longrightarrow>
               h_attacker_name h = Some ''nifty'')"
    by code_simp
  from stats_count_events_of_observed_name[OF h1 h2 h3 h4 h5 h6 h7 h8 h9 h10] ex sp
  have "kills_total nifty_ex = int (length (filter (\<lambda>k. d_attacker_name k = Some ''nifty'') (rows kdf_ex)))"
    and "kills_total nifty_ex = int (length (filter (\<lambda>k. name_matches (d_attacker_name k) ''nifty'') (rows kdf_ex)))"
    and "dmg nifty_ex = sum_list (map h_dmg_health (filter (\<lambda>h. name_matches (h_attacker_name h) ''nifty'') (rows hdf_ex)))"
    by auto
  with h1 h2 h3 h4 h5 h6 h7 h8 h9 h10 ex show ?thesis by (simp add: nifty_ex_def)
qed

section \<open>The roster check\<close>

text \<open>
  C8. \<open>check_required_players\<close> passes exactly when every required name has an observed
  name with the same lower-case form; \<open>missing\<close>, which it prints, is the set of
  lower-cased required names without such an observed name; and when the check fails
  \<open>parse_demo_file\<close> returns \<open>False\<close> after printing the missing names and that it skips
  the demo, with both stores unchanged and without parsing statistics or uploading.
\<close>

theorem roster_check:
  "(check_required_players d \<longleftrightarrow>
      (\<forall>r \<in> REQUIRED_PLAYERS. \<exists>p \<in> set (get_player_names d). lower p = lower r)) \<and>
   missing d = {lower r |r. r \<in> REQUIRED_PLAYERS \<and> (\<forall>p \<in> set (get_player_names d). lower p \<noteq> lower r)} \<and>
   (\<not> check_required_players d \<longrightarrow>
      parse_demo_file post sqlite_ok d use_api api_url api_token cleanup s =
        (False, s, [MissingRequiredPlayers (missing d), SkippingDemo]))"
proof -
  have a: "check_required_players d \<longleftrightarrow>
      (\<forall>r \<in> REQUIRED_PLAYERS. \<exists>p \<in> set (get_player_names d). lower p = lower r)"
  proof -
    have "check_required_players d \<longleftrightarrow> lower ` REQUIRED_PLAYERS \<subseteq> lower ` set (get_player_names d)"
      unfolding check_required_players_def missing_def by blast
    also have "\<dots> \<longleftrightarrow> (\<forall>r \<in> REQUIRED_PLAYERS. lower r \<in> lower ` set (get_player_names d))"
      by blast
    also have "\<dots> \<longleftrightarrow> (\<forall>r \<in> REQUIRED_PLAYERS. \<exists>p \<in> set (get_player_names d). lower p = lower r)"
      by (rule ball_cong[OF refl]) (metis (no_types) image_iff)
    finally show ?thesis .
  qed
  have b: "missing d =
      {lower r |r. r \<in> REQUIRED_PLAYERS \<and> (\<forall>p \<in> set (get_player_names d). lower p \<noteq> lower r)}"
    unfolding missing_def by (auto simp add: image_iff) metis+
  have c: "\<not> check_required_players d \<longrightarrow>
      parse_demo_file post sqlite_ok d use_api api_url api_token cleanup s =
        (False, s, [MissingRequiredPlayers (missing d), SkippingDemo])"
    by (simp add: parse_demo_file_def)
  from a b c show ?thesis by blast
qed

theorem roster_check_witness:
  "\<not> check_required_players demo_two \<and>
   missing demo_two = {''togmannen'', ''stutmunn'', ''martinsen''} \<and>
   parse_demo_file (api_server True) True demo_two True (Some ''http://api'') None False (db_empty, db_empty)
     = (False, (db_empty, db_empty),
        [MissingRequiredPlayers {''togmannen'', ''stutmunn'', ''martinsen''}, SkippingDemo]) \<and>
   check_required_players demo_ex"
proof -
  have n: "get_player_names demo_two = [''NIFTY'', ''zed'', ''dybbis'']" by code_simp
  have m: "missing demo_two = {''togmannen'', ''stutmunn'', ''martinsen''}"
    unfolding missing_def n REQUIRED_PLAYERS_def by (simp add: lower_def lower_char_def) 
  have "\<not> check_required_players demo_two" unfolding check_required_players_def m by simp
  moreover have "check_required_players demo_ex" by code_simp
  ultimately show ?thesis
    using m roster_check[of demo_two "api_server True" True True "Some ''http://api''" None False "(db_empty, db_empty)"]
    by simp
qed


section \<open>Uploading a match twice\<close>

lemma upload_match_data_success:
  assumes "upload_match_data sqlite_ok db m = (Success n, db1)"
  shows "db1 = db\<lparr>map_stats_table := map_stats_table db @ [(match_id m, map_stats m)],
               player_stats_table := player_stats_table db @
                 map (\<lambda>player. (match_id m, player)) (player_stats m)\<rparr>"
  using assms by (simp add: upload_match_data_def split: if_splits)

lemma upload_to_api_server:
  "upload_to_api (api_server sqlite_ok) mid pstats mstats api_url api_token db =
     (case upload_match_data sqlite_ok db (payload_of mid pstats mstats) of
        (Success n, db') \<Rightarrow> (True, db')
      | (HTTPException status_code, db') \<Rightarrow> (False, db'))"
  by (simp add: upload_to_api_def api_server_def upload_match_data_def Let_def)

text \<open>
  C1. When the store already has a \<open>map_stats\<close> row for the payload's \<open>match_id\<close>,
  \<open>upload_match_data\<close> leaves the store as it is and (when no database call fails)
  answers 409. After an upload that succeeded, the same payload is answered 409 and the
  store, so also its row count for that \<open>match_id\<close>, is unchanged. Seen from the parser:
  after \<open>upload_to_api\<close> returned \<open>True\<close>, the same upload returns \<open>False\<close> and leaves the
  store unchanged.
\<close>

theorem upload_conflict_no_insert:
  "(0 < length (filter (\<lambda>row. fst row = match_id m) (map_stats_table db)) \<longrightarrow>
      snd (upload_match_data sqlite_ok db m) = db \<and>
      (sqlite_ok \<longrightarrow> fst (upload_match_data sqlite_ok db m) = HTTPException 409)) \<and>
   (\<forall>n db1. upload_match_data sqlite_ok db m = (Success n, db1) \<longrightarrow>
      upload_match_data True db1 m = (HTTPException 409, db1)) \<and>
   (\<forall>db1. upload_to_api (api_server sqlite_ok) mid pstats mstats api_url api_token db = (True, db1) \<longrightarrow>
      upload_to_api (api_server True) mid pstats mstats api_url api_token db1 = (False, db1))"
proof -
  have a: "0 < length (filter (\<lambda>row. fst row = match_id m) (map_stats_table db)) \<longrightarrow>
      snd (upload_match_data sqlite_ok db m) = db \<and>
      (sqlite_ok \<longrightarrow> fst (upload_match_data sqlite_ok db m) = HTTPException 409)"
    by (simp add: upload_match_data_def)
  have b: "upload_match_data True db1 m = (HTTPException 409, db1)"
    if "upload_match_data ok db m = (Success n, db1)" for ok n db1 db m
    unfolding upload_match_data_success[OF that] by (simp add: upload_match_data_def)
  have c: "upload_to_api (api_server True) mid pstats mstats api_url api_token db1 = (False, db1)"
    if t: "upload_to_api (api_server sqlite_ok) mid pstats mstats api_url api_token db = (True, db1)" for db1
  proof -
    from t obtain n where "upload_match_data sqlite_ok db (payload_of mid pstats mstats) = (Success n, db1)"
      unfolding upload_to_api_server by (auto split: prod.splits response.splits)
    from b[OF this] show ?thesis unfolding upload_to_api_server by simp
  qed
  from a b c show ?thesis by blast
qed

theorem upload_conflict_no_insert_witness:
  "upload_match_data True db_empty payload_ex = (Success 1, db_one) \<and>
   0 < length (filter (\<lambda>row. fst row = match_id payload_ex) (map_stats_table db_one)) \<and>
   upload_match_data True db_one payload_ex = (HTTPException 409, db_one) \<and>
   length (map_stats_table db_one) = 1 \<and> length (player_stats_table db_one) = 1"
proof -
  have first: "upload_match_data True db_empty payload_ex = (Success 1, db_one)"
    by (simp add: upload_match_data_def db_empty_def db_one_def payload_ex_def payload_of_def)
  have ex: "0 < length (filter (\<lambda>row. fst row = match_id payload_ex) (map_stats_table db_one))"
    by (simp add: db_one_def payload_ex_def payload_of_def)
  from upload_conflict_no_insert[of payload_ex db_one True] ex
  have "upload_match_data True db_one payload_ex = (HTTPException 409, db_one)"
    by (simp add: prod_eq_iff)
  with first ex show ?thesis by (simp add: db_one_def payload_ex_def payload_of_def)
qed

section \<open>What the caller of an upload can tell apart\<close>

text \<open>
  C9 (the code differs). \<open>upload_to_api\<close> returns \<open>False\<close> for a 409 response, for any
  other failure status and for a transport error alike, and \<open>main\<close> counts each of them
  as skipped: a demo whose match is already stored and a demo whose upload fails with
  500 both end with the counters \<open>(successful, skipped, failed) = (0, 1, 0)\<close>.
\<close>

theorem conflict_and_failure_both_false:
  "upload_to_api (\<lambda>url authorization payload w. (Response 409, w)) mid pstats mstats api_url api_token w = (False, w) \<and>
   upload_to_api (\<lambda>url authorization payload w. (Response 500, w)) mid pstats mstats api_url api_token w = (False, w) \<and>
   upload_to_api (\<lambda>url authorization payload w. (RequestException, w)) mid pstats mstats api_url api_token w = (False, w) \<and>
   tally (Some False) (successful, skipped, failed) = (successful, skipped + 1, failed) \<and>
   fst (process_demos (api_server True) True True (Some ''http://api'') None False [demo_ex]
          ((0, 0, 0), (db_empty, db_one))) = (0, 1, 0) \<and>
   fst (process_demos (api_server False) True True (Some ''http://api'') None False [demo_ex]
          ((0, 0, 0), (db_empty, db_empty))) = (0, 1, 0)"
proof -
  have a: "fst (process_demos (api_server True) True True (Some ''http://api'') None False [demo_ex]
          ((0, 0, 0), (db_empty, db_one))) = (0, 1, 0)" by code_simp
  have b: "fst (process_demos (api_server False) True True (Some ''http://api'') None False [demo_ex]
          ((0, 0, 0), (db_empty, db_empty))) = (0, 1, 0)" by code_simp
  show ?thesis using a b by (simp add: upload_to_api_def tally_def)
qed

section \<open>The side of the roster in the final round\<close>

























end
